theory Spec2Isabelle
  imports
    Complex_Main
    "HOL-Library.Char_ord"
    "HOL-Library.List_Lexorder"
    "HOL-Library.Product_Lexorder"
    "HOL-Library.Multiset"
begin

section \<open>Values: JSON request fields and SQLite column values\<close>

text \<open>
  \<^verbatim>\<open>server.js\<close> is an Express application over one SQLite database with the tables
  \<^verbatim>\<open>levels\<close> and \<^verbatim>\<open>videos\<close>. The handlers run on a request whose JSON body has been
  parsed by \<^verbatim>\<open>express.json\<close>; a request the middleware refuses (a body over the limit of
  50mb, malformed JSON) reaches no handler.

  A JavaScript number is a double: a finite double is given by its exact value, a
  rational, and a JSON number too large for a double is an infinity. A field of the
  body is a \<open>jsval\<close>: \<open>JUndefined\<close> is what destructuring \<^verbatim>\<open>req.body\<close> gives for an absent
  field, and \<open>JObject s\<close> is an object or an array, given by the text \<open>s\<close> that its
  \<^verbatim>\<open>toString()\<close> returns, which is all the program uses of it.
\<close>

datatype double = Finite rat | PlusInfinity | MinusInfinity

datatype jsval = JUndefined | JNull | JBool bool | JNum double | JStr string | JObject string

text \<open>
  A stored value has one of the storage classes NULL, INTEGER, REAL, TEXT and BLOB. The
  program binds no BLOB, but a database can hold one.
\<close>

datatype sqlval = SNull | SInt int | SReal double | SText string | SBlob string

text \<open>JavaScript truthiness, as tested by \<^verbatim>\<open>if (!videoData)\<close> and \<^verbatim>\<open>if (!row)\<close>.\<close>

fun truthy :: "jsval \<Rightarrow> bool" where
  "truthy JUndefined = False"
| "truthy JNull = False"
| "truthy (JBool b) = b"
| "truthy (JNum d) = (d \<noteq> Finite 0)"
| "truthy (JStr s) = (s \<noteq> [])"
| "truthy (JObject s) = True"

text \<open>
  The driver binds a statement parameter by its JavaScript type: a string as TEXT; a
  number as INTEGER when it is an integer of 32 bits and as REAL otherwise; a boolean as
  the integers 1 and 0; \<^verbatim>\<open>null\<close> as NULL; an object as the TEXT of its \<^verbatim>\<open>toString()\<close>; a
  parameter that is \<^verbatim>\<open>undefined\<close> is left unbound, which SQLite reads as NULL.
\<close>

fun int32_value :: "double \<Rightarrow> int option" where
  "int32_value (Finite x) =
     (if of_int \<lfloor>x\<rfloor> = x \<and> - 2147483648 \<le> \<lfloor>x\<rfloor> \<and> \<lfloor>x\<rfloor> \<le> 2147483647 then Some \<lfloor>x\<rfloor> else None)"
| "int32_value PlusInfinity = None"
| "int32_value MinusInfinity = None"

fun bind_parameter :: "jsval \<Rightarrow> sqlval" where
  "bind_parameter JUndefined = SNull"
| "bind_parameter JNull = SNull"
| "bind_parameter (JBool b) = SInt (if b then 1 else 0)"
| "bind_parameter (JNum d) = (case int32_value d of Some n \<Rightarrow> SInt n | None \<Rightarrow> SReal d)"
| "bind_parameter (JStr s) = SText s"
| "bind_parameter (JObject s) = SText s"


subsection \<open>Decimal text of an integer, and integer literals\<close>

definition digit_char :: "nat \<Rightarrow> char" where
  "digit_char d = char_of (48 + d)"

fun dec_nat :: "nat \<Rightarrow> string" where
  "dec_nat n = (if n < 10 then [digit_char n] else dec_nat (n div 10) @ [digit_char (n mod 10)])"

declare dec_nat.simps [simp del]

definition show_int :: "int \<Rightarrow> string" where
  "show_int i = (if i < 0 then CHR ''-'' # dec_nat (nat (- i)) else dec_nat (nat i))"

definition is_digit :: "char \<Rightarrow> bool" where
  "is_digit c = (48 \<le> (of_char c :: nat) \<and> (of_char c :: nat) \<le> 57)"

definition digit_val :: "char \<Rightarrow> nat" where
  "digit_val c = of_char c - 48"

definition digits_val :: "string \<Rightarrow> nat" where
  "digits_val s = foldl (\<lambda>a c. 10 * a + digit_val c) 0 s"

definition is_space :: "char \<Rightarrow> bool" where
  "is_space c = ((of_char c :: nat) = 32 \<or> (9 \<le> (of_char c :: nat) \<and> (of_char c :: nat) \<le> 13))"

definition trim :: "string \<Rightarrow> string" where
  "trim s = rev (dropWhile is_space (rev (dropWhile is_space s)))"

definition all_digits :: "string \<Rightarrow> bool" where
  "all_digits s = (s \<noteq> [] \<and> list_all is_digit s)"

definition signed_digits :: "string \<Rightarrow> int option" where
  "signed_digits s =
     (case trim s of
        [] \<Rightarrow> None
      | c # ds \<Rightarrow>
          if c = CHR ''-'' then (if all_digits ds then Some (- int (digits_val ds)) else None)
          else if c = CHR ''+'' then (if all_digits ds then Some (int (digits_val ds)) else None)
          else if all_digits (c # ds) then Some (int (digits_val (c # ds)))
          else None)"

definition max_rowid :: int where
  "max_rowid = 9223372036854775807"

text \<open>
  Text that SQLite reads as an INTEGER: optional surrounding white space, an optional
  sign, then one or more decimal digits, of a value that fits 64 bits.
\<close>

definition int_literal :: "string \<Rightarrow> int option" where
  "int_literal s =
     (case signed_digits s of
        None \<Rightarrow> None
      | Some n \<Rightarrow> if - max_rowid - 1 \<le> n \<and> n \<le> max_rowid then Some n else None)"

subsection \<open>Column affinity and comparison\<close>

text \<open>
  What SQLite computes on floating-point values is not written out here but taken as a
  parameter of the model, so that every statement below holds whatever it is:
  \<open>real_literal\<close> reads text that is a numeric literal but not an INTEGER in the sense of
  \<open>int_literal\<close> (a fraction, an exponent, an integer beyond 64 bits) as a REAL, and
  gives nothing for text that is no number; \<open>real_to_int\<close> is the INTEGER that a REAL
  becomes in a column declared INTEGER when that loses nothing; \<open>render_real\<close> is the
  text that a REAL becomes in a column declared TEXT.
\<close>

record engine =
  real_literal :: "string \<Rightarrow> double option"
  real_to_int :: "double \<Rightarrow> int option"
  render_real :: "double \<Rightarrow> string"

text \<open>
  The numeric conversion of an operand without affinity (a bound parameter) that is
  compared with an INTEGER column.
\<close>

fun numeric_affinity :: "engine \<Rightarrow> sqlval \<Rightarrow> sqlval" where
  "numeric_affinity e (SText s) =
     (case int_literal s of
        Some n \<Rightarrow> SInt n
      | None \<Rightarrow> (case real_literal e s of Some d \<Rightarrow> SReal d | None \<Rightarrow> SText s))"
| "numeric_affinity e SNull = SNull"
| "numeric_affinity e (SInt n) = SInt n"
| "numeric_affinity e (SReal d) = SReal d"
| "numeric_affinity e (SBlob b) = SBlob b"

text \<open>The conversion of a value stored in a column declared INTEGER.\<close>

definition integer_of_real :: "engine \<Rightarrow> double \<Rightarrow> sqlval" where
  "integer_of_real e d = (case real_to_int e d of Some n \<Rightarrow> SInt n | None \<Rightarrow> SReal d)"

fun integer_affinity :: "engine \<Rightarrow> sqlval \<Rightarrow> sqlval" where
  "integer_affinity e (SText s) =
     (case int_literal s of
        Some n \<Rightarrow> SInt n
      | None \<Rightarrow> (case real_literal e s of Some d \<Rightarrow> integer_of_real e d | None \<Rightarrow> SText s))"
| "integer_affinity e SNull = SNull"
| "integer_affinity e (SInt n) = SInt n"
| "integer_affinity e (SReal d) = integer_of_real e d"
| "integer_affinity e (SBlob b) = SBlob b"

text \<open>The conversion of a value stored in a column declared TEXT.\<close>

fun text_affinity :: "engine \<Rightarrow> sqlval \<Rightarrow> sqlval" where
  "text_affinity e (SInt n) = SText (show_int n)"
| "text_affinity e (SReal d) = SText (render_real e d)"
| "text_affinity e SNull = SNull"
| "text_affinity e (SText s) = SText s"
| "text_affinity e (SBlob b) = SBlob b"

text \<open>
  The key of \<^verbatim>\<open>ORDER BY\<close>: NULL sorts first, then INTEGER and REAL together by their
  value, then TEXT by its bytes, then BLOB by its bytes.
\<close>

fun double_key :: "double \<Rightarrow> int \<times> rat" where
  "double_key MinusInfinity = (- 1, 0)"
| "double_key (Finite x) = (0, x)"
| "double_key PlusInfinity = (1, 0)"

fun sort_rank :: "sqlval \<Rightarrow> nat \<times> (int \<times> rat) \<times> string" where
  "sort_rank SNull = (0, (0, 0), [])"
| "sort_rank (SInt n) = (1, (0, of_int n), [])"
| "sort_rank (SReal d) = (1, double_key d, [])"
| "sort_rank (SText s) = (2, (0, 0), s)"
| "sort_rank (SBlob b) = (3, (0, 0), b)"

text \<open>
  The SQL operator \<^verbatim>\<open>=\<close> in a WHERE or ON clause and the test of a UNIQUE column: NULL
  equals nothing, numbers are equal by value, text and BLOB by their bytes, and values of
  different kinds are not equal.
\<close>

definition sql_eq :: "sqlval \<Rightarrow> sqlval \<Rightarrow> bool" where
  "sql_eq a b = (a \<noteq> SNull \<and> b \<noteq> SNull \<and> sort_rank a = sort_rank b)"

section \<open>The store\<close>

text \<open>
  The two tables of \<^verbatim>\<open>initializeDatabase\<close>. The statement that creates \<^verbatim>\<open>levels\<close> is
  well formed and runs first, so a store has a levels table. The videos table may be
  missing: \<open>videos db = None\<close> is a database without it. Both tables are declared with
  \<^verbatim>\<open>id INTEGER PRIMARY KEY AUTOINCREMENT\<close>, so the store keeps for each the largest row id
  handed out so far (the table \<^verbatim>\<open>sqlite_sequence\<close>).
\<close>

record level =
  l_id :: int
  l_number :: sqlval
  l_title :: sqlval
  l_description :: sqlval
  l_icon :: sqlval
  l_status :: sqlval
  l_points :: sqlval
  l_created_at :: string

record video =
  v_id :: int
  v_level_id :: sqlval
  v_title :: sqlval
  v_description :: sqlval
  v_filename :: sqlval
  v_file_size :: sqlval
  v_mime_type :: sqlval
  v_video_data :: sqlval
  v_created_at :: string

record store =
  levels :: "level list"
  videos :: "video list option"
  levels_seq :: int
  videos_seq :: int

text \<open>
  AUTOINCREMENT: the new row id is one more than the largest id in the table (1 for an
  empty table) and more than the largest id handed out before; when the largest possible
  id has been reached the insert fails.
\<close>

definition rowid_full :: "int \<Rightarrow> int list \<Rightarrow> bool" where
  "rowid_full seq ids = (max_rowid \<le> seq \<or> list_ex (\<lambda>i. max_rowid \<le> i) ids)"

fun next_rowid :: "int \<Rightarrow> int list \<Rightarrow> int" where
  "next_rowid seq [] = max 1 (seq + 1)"
| "next_rowid seq (i # ids) = max (fold max ids i + 1) (seq + 1)"

datatype db_error =
    NotNullFailed string
  | UniqueFailed string
  | NoSuchTable string
  | SyntaxError string
  | DatabaseFull

fun error_message :: "db_error \<Rightarrow> string" where
  "error_message (NotNullFailed c) = ''SQLITE_CONSTRAINT: NOT NULL constraint failed: '' @ c"
| "error_message (UniqueFailed c) = ''SQLITE_CONSTRAINT: UNIQUE constraint failed: '' @ c"
| "error_message (NoSuchTable t) = ''SQLITE_ERROR: no such table: '' @ t"
| "error_message (SyntaxError t) =
     ''SQLITE_ERROR: near '' @ [CHR 0x22] @ t @ [CHR 0x22] @ '': syntax error''"
| "error_message DatabaseFull = ''SQLITE_FULL: database or disk is full''"

section \<open>The statements of \<^verbatim>\<open>server.js\<close>\<close>

text \<open>
  Each SQL statement of the source is one function on the store; it gives an error or
  its result, as the callback of \<^verbatim>\<open>db.all\<close>, \<^verbatim>\<open>db.get\<close> and \<^verbatim>\<open>db.run\<close> receives \<^verbatim>\<open>err\<close> or
  the rows, the row, the new row id (\<^verbatim>\<open>this.lastID\<close>) or the number of rows changed
  (\<^verbatim>\<open>this.changes\<close>). A statement on \<^verbatim>\<open>videos\<close> fails when the table is missing. The
  FOREIGN KEY clause of \<^verbatim>\<open>videos\<close> is never switched on (no \<^verbatim>\<open>PRAGMA foreign_keys\<close>), so
  apart from that only an insert or update can fail: on \<^verbatim>\<open>title TEXT NOT NULL\<close>, on
  \<^verbatim>\<open>number INTEGER UNIQUE\<close>, or on the last row id. \<^verbatim>\<open>created_at\<close> is filled with the time
  of the insert, which is an argument.
\<close>

text \<open>
  The WHERE clauses. The column is compared as it is stored and the bound parameter
  after its numeric conversion.
\<close>

definition level_id_is :: "engine \<Rightarrow> sqlval \<Rightarrow> level \<Rightarrow> bool" where
  "level_id_is e p r = sql_eq (SInt (l_id r)) (numeric_affinity e p)"

definition video_id_is :: "engine \<Rightarrow> sqlval \<Rightarrow> video \<Rightarrow> bool" where
  "video_id_is e p v = sql_eq (SInt (v_id v)) (numeric_affinity e p)"

definition video_level_is :: "engine \<Rightarrow> sqlval \<Rightarrow> video \<Rightarrow> bool" where
  "video_level_is e p v = sql_eq (v_level_id v) (numeric_affinity e p)"

definition level_number_is :: "engine \<Rightarrow> sqlval \<Rightarrow> level \<Rightarrow> bool" where
  "level_number_is e p r = sql_eq (l_number r) (numeric_affinity e p)"

text \<open>
  \<^verbatim>\<open>CREATE TABLE IF NOT EXISTS levels (...)\<close>: well-formed SQL; the table is there
  afterwards with the rows it had.
\<close>

definition create_levels_table :: "store \<Rightarrow> db_error + store" where
  "create_levels_table db = Inr db"

text \<open>
  \<^verbatim>\<open>CREATE TABLE IF NOT EXISTS videos (...)\<close>: the text of the statement holds, after the
  column \<^verbatim>\<open>video_data TEXT,\<close> the JavaScript comment \<^verbatim>\<open>// Store base64 encoded video\<close>.
  SQL has no such comment, so the statement is refused at the first \<^verbatim>\<open>/\<close> and creates
  nothing, whether the table exists or not.
\<close>

definition create_videos_table :: "store \<Rightarrow> db_error + store" where
  "create_videos_table db = Inl (SyntaxError ''/'')"

text \<open>\<^verbatim>\<open>SELECT * FROM levels ORDER BY number\<close>; rows with equal keys are taken in table order.\<close>

definition select_levels :: "store \<Rightarrow> db_error + level list" where
  "select_levels db = Inr (sort_key (\<lambda>r. sort_rank (l_number r)) (levels db))"

text \<open>\<^verbatim>\<open>SELECT * FROM levels WHERE id = ?\<close>, read with \<^verbatim>\<open>db.get\<close>: the first row or none.\<close>

definition select_level :: "engine \<Rightarrow> sqlval \<Rightarrow> store \<Rightarrow> db_error + level option" where
  "select_level e p db = Inr (find (level_id_is e p) (levels db))"

text \<open>\<^verbatim>\<open>SELECT id FROM levels WHERE number = ?\<close>\<close>

definition select_level_by_number :: "engine \<Rightarrow> sqlval \<Rightarrow> store \<Rightarrow> db_error + int option" where
  "select_level_by_number e p db =
     Inr (map_option l_id (find (level_number_is e p) (levels db)))"

text \<open>
  \<^verbatim>\<open>INSERT INTO levels (number, title, description, icon, status, points) VALUES (?, ?, ?, ?, ?, ?)\<close>.
  All six columns are named, so each takes the bound value, NULL included; only \<^verbatim>\<open>id\<close>
  and \<^verbatim>\<open>created_at\<close> are left to their defaults. The row id is taken first, then
  NOT NULL is checked, then UNIQUE.
\<close>

definition new_level_row ::
  "engine \<Rightarrow> int \<Rightarrow> string \<Rightarrow> sqlval \<Rightarrow> sqlval \<Rightarrow> sqlval \<Rightarrow> sqlval \<Rightarrow> sqlval \<Rightarrow> sqlval \<Rightarrow> level" where
  "new_level_row e rid now number title description icon status points =
     \<lparr>l_id = rid, l_number = integer_affinity e number, l_title = text_affinity e title,
      l_description = text_affinity e description, l_icon = text_affinity e icon,
      l_status = text_affinity e status, l_points = integer_affinity e points,
      l_created_at = now\<rparr>"

definition insert_level ::
  "engine \<Rightarrow> string \<Rightarrow> sqlval \<Rightarrow> sqlval \<Rightarrow> sqlval \<Rightarrow> sqlval \<Rightarrow> sqlval \<Rightarrow> sqlval \<Rightarrow> store
     \<Rightarrow> db_error + (int \<times> store)" where
  "insert_level e now number title description icon status points db =
     (if rowid_full (levels_seq db) (map l_id (levels db)) then Inl DatabaseFull
      else if text_affinity e title = SNull then Inl (NotNullFailed ''levels.title'')
      else if list_ex (\<lambda>r. sql_eq (l_number r) (integer_affinity e number)) (levels db)
        then Inl (UniqueFailed ''levels.number'')
      else
        let rid = next_rowid (levels_seq db) (map l_id (levels db))
        in Inr (rid,
             db\<lparr>levels := levels db @
                   [new_level_row e rid now number title description icon status points],
                levels_seq := rid\<rparr>))"

text \<open>
  \<^verbatim>\<open>UPDATE levels SET number = ?, title = ?, description = ?, icon = ?, status = ?, points = ? WHERE id = ?\<close>.
  The constraints are checked on the rows that are updated, so nothing fails when no
  row has the id.
\<close>

definition update_level ::
  "engine \<Rightarrow> sqlval \<Rightarrow> sqlval \<Rightarrow> sqlval \<Rightarrow> sqlval \<Rightarrow> sqlval \<Rightarrow> sqlval \<Rightarrow> sqlval \<Rightarrow> store
     \<Rightarrow> db_error + (nat \<times> store)" where
  "update_level e number title description icon status points p db =
     (let hits = filter (level_id_is e p) (levels db)
      in
      if hits = [] then Inr (0, db)
      else if text_affinity e title = SNull then Inl (NotNullFailed ''levels.title'')
      else if list_ex (\<lambda>r. \<not> level_id_is e p r \<and> sql_eq (l_number r) (integer_affinity e number))
                (levels db) \<or>
              (1 < length hits \<and> integer_affinity e number \<noteq> SNull)
        then Inl (UniqueFailed ''levels.number'')
      else Inr (length hits,
        db\<lparr>levels := map (\<lambda>r. if level_id_is e p r
              then r\<lparr>l_number := integer_affinity e number, l_title := text_affinity e title,
                     l_description := text_affinity e description,
                     l_icon := text_affinity e icon, l_status := text_affinity e status,
                     l_points := integer_affinity e points\<rparr>
              else r) (levels db)\<rparr>))"

text \<open>\<^verbatim>\<open>DELETE FROM videos WHERE level_id = ?\<close>\<close>

definition delete_videos_of_level :: "engine \<Rightarrow> sqlval \<Rightarrow> store \<Rightarrow> db_error + (nat \<times> store)" where
  "delete_videos_of_level e p db =
     (case videos db of
        None \<Rightarrow> Inl (NoSuchTable ''videos'')
      | Some vs \<Rightarrow>
          Inr (length (filter (video_level_is e p) vs),
               db\<lparr>videos := Some (filter (\<lambda>v. \<not> video_level_is e p v) vs)\<rparr>))"

text \<open>\<^verbatim>\<open>DELETE FROM levels WHERE id = ?\<close>\<close>

definition delete_level_row :: "engine \<Rightarrow> sqlval \<Rightarrow> store \<Rightarrow> db_error + (nat \<times> store)" where
  "delete_level_row e p db =
     Inr (length (filter (level_id_is e p) (levels db)),
          db\<lparr>levels := filter (\<lambda>r. \<not> level_id_is e p r) (levels db)\<rparr>)"

text \<open>\<^verbatim>\<open>DELETE FROM videos WHERE id = ?\<close>\<close>

definition delete_video_row :: "engine \<Rightarrow> sqlval \<Rightarrow> store \<Rightarrow> db_error + (nat \<times> store)" where
  "delete_video_row e p db =
     (case videos db of
        None \<Rightarrow> Inl (NoSuchTable ''videos'')
      | Some vs \<Rightarrow>
          Inr (length (filter (video_id_is e p) vs),
               db\<lparr>videos := Some (filter (\<lambda>v. \<not> video_id_is e p v) vs)\<rparr>))"

text \<open>
  \<^verbatim>\<open>SELECT v.*, l.number as level_number, l.title as level_title FROM videos v
  LEFT JOIN levels l ON v.level_id = l.id ORDER BY l.number, v.title\<close>.
  Rows with equal keys are taken in table order.
\<close>

record joined_video =
  jv_video :: video
  level_number :: sqlval
  level_title :: sqlval

definition joins_level :: "video \<Rightarrow> level \<Rightarrow> bool" where
  "joins_level v l = sql_eq (v_level_id v) (SInt (l_id l))"

definition left_join_level :: "level list \<Rightarrow> video \<Rightarrow> joined_video list" where
  "left_join_level ls v =
     (case filter (joins_level v) ls of
        [] \<Rightarrow> [\<lparr>jv_video = v, level_number = SNull, level_title = SNull\<rparr>]
      | m # ms \<Rightarrow> map (\<lambda>l. \<lparr>jv_video = v, level_number = l_number l, level_title = l_title l\<rparr>) (m # ms))"

definition join_key ::
  "joined_video \<Rightarrow> (nat \<times> (int \<times> rat) \<times> string) \<times> (nat \<times> (int \<times> rat) \<times> string)" where
  "join_key j = (sort_rank (level_number j), sort_rank (v_title (jv_video j)))"

definition select_videos_joined :: "store \<Rightarrow> db_error + joined_video list" where
  "select_videos_joined db =
     (case videos db of
        None \<Rightarrow> Inl (NoSuchTable ''videos'')
      | Some vs \<Rightarrow> Inr (sort_key join_key (concat (map (left_join_level (levels db)) vs))))"

text \<open>\<^verbatim>\<open>SELECT * FROM videos WHERE level_id = ?\<close>\<close>

definition select_videos_of_level :: "engine \<Rightarrow> sqlval \<Rightarrow> store \<Rightarrow> db_error + video list" where
  "select_videos_of_level e p db =
     (case videos db of
        None \<Rightarrow> Inl (NoSuchTable ''videos'')
      | Some vs \<Rightarrow> Inr (filter (video_level_is e p) vs))"

text \<open>\<^verbatim>\<open>SELECT * FROM videos WHERE id = ?\<close>, read with \<^verbatim>\<open>db.get\<close>.\<close>

definition select_video :: "engine \<Rightarrow> sqlval \<Rightarrow> store \<Rightarrow> db_error + video option" where
  "select_video e p db =
     (case videos db of
        None \<Rightarrow> Inl (NoSuchTable ''videos'')
      | Some vs \<Rightarrow> Inr (find (video_id_is e p) vs))"

text \<open>
  \<^verbatim>\<open>INSERT INTO videos (level_id, title, description, filename, file_size, mime_type, video_data)
  VALUES (?, ?, ?, ?, ?, ?, ?)\<close>
\<close>

definition new_video_row ::
  "engine \<Rightarrow> int \<Rightarrow> string \<Rightarrow> sqlval \<Rightarrow> sqlval \<Rightarrow> sqlval \<Rightarrow> sqlval \<Rightarrow> sqlval \<Rightarrow> sqlval \<Rightarrow> sqlval
     \<Rightarrow> video" where
  "new_video_row e rid now level_id title description filename file_size mime_type video_data =
     \<lparr>v_id = rid, v_level_id = integer_affinity e level_id, v_title = text_affinity e title,
      v_description = text_affinity e description, v_filename = text_affinity e filename,
      v_file_size = integer_affinity e file_size, v_mime_type = text_affinity e mime_type,
      v_video_data = text_affinity e video_data, v_created_at = now\<rparr>"

definition insert_video ::
  "engine \<Rightarrow> string \<Rightarrow> sqlval \<Rightarrow> sqlval \<Rightarrow> sqlval \<Rightarrow> sqlval \<Rightarrow> sqlval \<Rightarrow> sqlval \<Rightarrow> sqlval \<Rightarrow> store
     \<Rightarrow> db_error + (int \<times> store)" where
  "insert_video e now level_id title description filename file_size mime_type video_data db =
     (case videos db of
        None \<Rightarrow> Inl (NoSuchTable ''videos'')
      | Some vs \<Rightarrow>
          if rowid_full (videos_seq db) (map v_id vs) then Inl DatabaseFull
          else if text_affinity e title = SNull then Inl (NotNullFailed ''videos.title'')
          else
            let rid = next_rowid (videos_seq db) (map v_id vs)
            in Inr (rid,
                 db\<lparr>videos := Some (vs @
                       [new_video_row e rid now level_id title description filename file_size
                          mime_type video_data]),
                    videos_seq := rid\<rparr>))"

section \<open>Sample data and start-up\<close>

record level_body =
  number :: jsval
  title :: jsval
  description :: jsval
  icon :: jsval
  status :: jsval
  points :: jsval

definition sampleLevels :: "level_body list" where
  "sampleLevels =
     [\<lparr>number = JNum (Finite 1), title = JStr ''Festivals & Celebrations'',
       description = JStr ''Explore the vibrant festivals of India'',
       icon = JStr [CHR 0xF0, CHR 0x9F, CHR 0x8E, CHR 0x89],
       status = JStr ''available'', points = JNum (Finite 100)\<rparr>,
      \<lparr>number = JNum (Finite 2), title = JStr ''Folk Arts & Music'',
       description = JStr ''Discover India's rich folk arts and music'',
       icon = JStr [CHR 0xF0, CHR 0x9F, CHR 0x8E, CHR 0xA8],
       status = JStr ''locked'', points = JNum (Finite 150)\<rparr>,
      \<lparr>number = JNum (Finite 3), title = JStr ''Mythology & Epics'',
       description = JStr ''Journey through Indian mythology and epics'',
       icon = JStr [CHR 0xF0, CHR 0x9F, CHR 0x93, CHR 0x96],
       status = JStr ''locked'', points = JNum (Finite 200)\<rparr>]"

text \<open>
  \<^verbatim>\<open>insertSampleData\<close> starts, for each sample level, a look-up of its number; the
  callback of the look-up starts the insert when no row was found. Nothing orders the
  three chains (there is no \<^verbatim>\<open>db.serialize\<close>): the \<^verbatim>\<open>forEach\<close> only queues the three
  look-ups, and the database runs each look-up and each insert when it gets to it. So a
  run is given by a schedule: the list, in the order in which the database runs them, of
  the index of the sample level whose next statement runs. A sample level is waiting for
  its look-up, waiting for its insert, or finished. A failed look-up or insert is logged
  and ends the chain.
\<close>

datatype seed_task = Lookup level_body | Insert level_body | Finished

fun is_finished :: "seed_task \<Rightarrow> bool" where
  "is_finished Finished = True"
| "is_finished (Lookup lv) = False"
| "is_finished (Insert lv) = False"

definition insert_sample :: "engine \<Rightarrow> string \<Rightarrow> level_body \<Rightarrow> store \<Rightarrow> db_error + (int \<times> store)" where
  "insert_sample e now lv db =
     insert_level e now (bind_parameter (number lv)) (bind_parameter (title lv))
       (bind_parameter (description lv)) (bind_parameter (icon lv))
       (bind_parameter (status lv)) (bind_parameter (points lv)) db"

definition seed_step ::
  "engine \<Rightarrow> (nat \<Rightarrow> string) \<Rightarrow> nat \<Rightarrow> seed_task list \<times> store \<Rightarrow> seed_task list \<times> store" where
  "seed_step e clock i st =
     (if i < length (fst st) then
        (case fst st ! i of
           Lookup lv \<Rightarrow>
             (case select_level_by_number e (bind_parameter (number lv)) (snd st) of
                Inl err \<Rightarrow> ((fst st)[i := Finished], snd st)
              | Inr None \<Rightarrow> ((fst st)[i := Insert lv], snd st)
              | Inr (Some row) \<Rightarrow> ((fst st)[i := Finished], snd st))
         | Insert lv \<Rightarrow>
             (case insert_sample e (clock i) lv (snd st) of
                Inl err \<Rightarrow> ((fst st)[i := Finished], snd st)
              | Inr (rid, db') \<Rightarrow> ((fst st)[i := Finished], db'))
         | Finished \<Rightarrow> st)
      else st)"

definition insertSampleData ::
  "engine \<Rightarrow> nat list \<Rightarrow> (nat \<Rightarrow> string) \<Rightarrow> store \<Rightarrow> seed_task list \<times> store" where
  "insertSampleData e sched clock db = fold (seed_step e clock) sched (map Lookup sampleLevels, db)"

text \<open>
  Words for what a run of the seeding does: the look-up of a sample level's number finds
  a row; the row that the insert of a sample level adds; the levels table has handed out
  its last row id.
\<close>

definition number_present :: "engine \<Rightarrow> level_body \<Rightarrow> store \<Rightarrow> bool" where
  "number_present e lv db =
     list_ex (level_number_is e (bind_parameter (number lv))) (levels db)"

definition sample_row :: "engine \<Rightarrow> int \<Rightarrow> string \<Rightarrow> level_body \<Rightarrow> level" where
  "sample_row e rid now lv =
     new_level_row e rid now (bind_parameter (number lv)) (bind_parameter (title lv))
       (bind_parameter (description lv)) (bind_parameter (icon lv))
       (bind_parameter (status lv)) (bind_parameter (points lv))"

definition levels_full :: "store \<Rightarrow> bool" where
  "levels_full db = rowid_full (levels_seq db) (map l_id (levels db))"

text \<open>
  What every state of a run from the store \<open>db0\<close> satisfies: the videos are untouched;
  the levels are those of \<open>db0\<close> followed by rows of different numbers, each the row of a
  finished sample level whose number \<open>db0\<close> did not have; and a sample level is waiting
  for its look-up, or waiting for its insert while its number is still absent, or has
  finished with its number present or the table full.
\<close>

definition seeding ::
  "engine \<Rightarrow> (nat \<Rightarrow> string) \<Rightarrow> store \<Rightarrow> seed_task list \<times> store \<Rightarrow> bool" where
  "seeding e clock db0 st =
     (length (fst st) = length sampleLevels \<and>
      videos (snd st) = videos db0 \<and> videos_seq (snd st) = videos_seq db0 \<and>
      (\<exists>new. levels (snd st) = levels db0 @ new \<and> distinct (map l_number new) \<and>
         (\<forall>r\<in>set new. \<exists>i<length sampleLevels. fst st ! i = Finished \<and>
            r = sample_row e (l_id r) (clock i) (sampleLevels ! i) \<and>
            \<not> number_present e (sampleLevels ! i) db0)) \<and>
      (\<forall>i<length sampleLevels.
         fst st ! i = Lookup (sampleLevels ! i) \<or>
         (fst st ! i = Insert (sampleLevels ! i) \<and> \<not> number_present e (sampleLevels ! i) (snd st)) \<or>
         (fst st ! i = Finished \<and>
            (number_present e (sampleLevels ! i) (snd st) \<or> levels_full (snd st)))))"

text \<open>
  What every state of a run satisfies that starts from a store \<open>db1\<close> in which each
  sample number is present or the table is full: the store is still \<open>db1\<close>.
\<close>

definition reseeding :: "engine \<Rightarrow> store \<Rightarrow> seed_task list \<times> store \<Rightarrow> bool" where
  "reseeding e db1 st =
     (length (fst st) = length sampleLevels \<and> snd st = db1 \<and>
      (\<forall>i<length sampleLevels.
         fst st ! i = Lookup (sampleLevels ! i) \<or>
         (fst st ! i = Insert (sampleLevels ! i) \<and> \<not> number_present e (sampleLevels ! i) db1) \<or>
         fst st ! i = Finished))"

text \<open>
  \<^verbatim>\<open>initializeDatabase\<close>: create \<^verbatim>\<open>levels\<close>; when that went well create \<^verbatim>\<open>videos\<close>; when
  that went well call \<^verbatim>\<open>insertSampleData\<close>. An error is logged and ends the start-up.
\<close>

definition initializeDatabase :: "engine \<Rightarrow> nat list \<Rightarrow> (nat \<Rightarrow> string) \<Rightarrow> store \<Rightarrow> store" where
  "initializeDatabase e sched clock db =
     (case create_levels_table db of
        Inl err \<Rightarrow> db
      | Inr db1 \<Rightarrow>
          (case create_videos_table db1 of
             Inl err \<Rightarrow> db1
           | Inr db2 \<Rightarrow> snd (insertSampleData e sched clock db2)))"

section \<open>The routes\<close>

datatype reply =
    Levels "level list"
  | LevelRow "level option"
  | JoinedVideos "joined_video list"
  | Videos "video list"
  | VideoRow video
  | Created int string
  | Message string
  | Error string

record response =
  status_code :: nat
  payload :: reply

definition json :: "reply \<Rightarrow> response" where
  "json r = \<lparr>status_code = 200, payload = r\<rparr>"

definition failure :: "nat \<Rightarrow> string \<Rightarrow> response" where
  "failure c m = \<lparr>status_code = c, payload = Error m\<rparr>"

text \<open>\<^verbatim>\<open>app.get('/api/levels')\<close>\<close>

definition get_levels :: "store \<Rightarrow> response" where
  "get_levels db =
     (case select_levels db of
        Inl err \<Rightarrow> failure 500 (error_message err)
      | Inr rows \<Rightarrow> json (Levels rows))"

text \<open>\<^verbatim>\<open>app.get('/api/levels/:id')\<close>: the row is sent as it is, also when there is none.\<close>

definition get_level :: "engine \<Rightarrow> string \<Rightarrow> store \<Rightarrow> response" where
  "get_level e ident db =
     (case select_level e (SText ident) db of
        Inl err \<Rightarrow> failure 500 (error_message err)
      | Inr row \<Rightarrow> json (LevelRow row))"

text \<open>\<^verbatim>\<open>app.post('/api/levels')\<close>\<close>

definition post_level :: "engine \<Rightarrow> string \<Rightarrow> level_body \<Rightarrow> store \<Rightarrow> response \<times> store" where
  "post_level e now body db =
     (case insert_level e now (bind_parameter (number body)) (bind_parameter (title body))
             (bind_parameter (description body)) (bind_parameter (icon body))
             (bind_parameter (status body)) (bind_parameter (points body)) db of
        Inl err \<Rightarrow> (failure 500 (error_message err), db)
      | Inr (rid, db') \<Rightarrow> (json (Created rid ''Level created successfully''), db'))"

text \<open>\<^verbatim>\<open>app.put('/api/levels/:id')\<close>\<close>

definition put_level :: "engine \<Rightarrow> string \<Rightarrow> level_body \<Rightarrow> store \<Rightarrow> response \<times> store" where
  "put_level e ident body db =
     (case update_level e (bind_parameter (number body)) (bind_parameter (title body))
             (bind_parameter (description body)) (bind_parameter (icon body))
             (bind_parameter (status body)) (bind_parameter (points body)) (SText ident) db of
        Inl err \<Rightarrow> (failure 500 (error_message err), db)
      | Inr (changes, db') \<Rightarrow> (json (Message ''Level updated successfully''), db'))"

text \<open>
  \<^verbatim>\<open>app.delete('/api/levels/:id')\<close>: first the videos of the level; when that went well,
  the level.
\<close>

definition delete_level :: "engine \<Rightarrow> string \<Rightarrow> store \<Rightarrow> response \<times> store" where
  "delete_level e ident db =
     (case delete_videos_of_level e (SText ident) db of
        Inl err \<Rightarrow> (failure 500 (error_message err), db)
      | Inr (changes1, db1) \<Rightarrow>
          (case delete_level_row e (SText ident) db1 of
             Inl err \<Rightarrow> (failure 500 (error_message err), db1)
           | Inr (changes2, db2) \<Rightarrow>
               (json (Message ''Level and associated videos deleted successfully''), db2)))"

text \<open>\<^verbatim>\<open>app.get('/api/videos')\<close>\<close>

definition get_videos :: "store \<Rightarrow> response" where
  "get_videos db =
     (case select_videos_joined db of
        Inl err \<Rightarrow> failure 500 (error_message err)
      | Inr rows \<Rightarrow> json (JoinedVideos rows))"

text \<open>\<^verbatim>\<open>app.get('/api/videos/level/:levelId')\<close>\<close>

definition get_videos_by_level :: "engine \<Rightarrow> string \<Rightarrow> store \<Rightarrow> response" where
  "get_videos_by_level e levelId db =
     (case select_videos_of_level e (SText levelId) db of
        Inl err \<Rightarrow> failure 500 (error_message err)
      | Inr rows \<Rightarrow> json (Videos rows))"

text \<open>\<^verbatim>\<open>app.post('/api/videos')\<close>\<close>

record video_body =
  level_id :: jsval
  video_title :: jsval
  video_description :: jsval
  videoData :: jsval
  filename :: jsval
  fileSize :: jsval
  mimeType :: jsval

definition post_video :: "engine \<Rightarrow> string \<Rightarrow> video_body \<Rightarrow> store \<Rightarrow> response \<times> store" where
  "post_video e now body db =
     (if \<not> truthy (videoData body) then (failure 400 ''No video data provided'', db)
      else
        (case insert_video e now (bind_parameter (level_id body))
                (bind_parameter (video_title body)) (bind_parameter (video_description body))
                (bind_parameter (filename body)) (bind_parameter (fileSize body))
                (bind_parameter (mimeType body)) (bind_parameter (videoData body)) db of
           Inl err \<Rightarrow> (failure 500 (error_message err), db)
         | Inr (rid, db') \<Rightarrow> (json (Created rid ''Video uploaded successfully''), db')))"

text \<open>\<^verbatim>\<open>app.get('/api/videos/:id')\<close>\<close>

definition get_video :: "engine \<Rightarrow> string \<Rightarrow> store \<Rightarrow> response" where
  "get_video e ident db =
     (case select_video e (SText ident) db of
        Inl err \<Rightarrow> failure 500 (error_message err)
      | Inr None \<Rightarrow> failure 404 ''Video not found''
      | Inr (Some row) \<Rightarrow> json (VideoRow row))"

text \<open>\<^verbatim>\<open>app.delete('/api/videos/:id')\<close>\<close>

definition delete_video :: "engine \<Rightarrow> string \<Rightarrow> store \<Rightarrow> response \<times> store" where
  "delete_video e ident db =
     (case delete_video_row e (SText ident) db of
        Inl err \<Rightarrow> (failure 500 (error_message err), db)
      | Inr (changes, db') \<Rightarrow> (json (Message ''Video deleted successfully''), db'))"

section \<open>Example engine, stores and requests\<close>

text \<open>
  A stand-in engine for the examples, which use no REAL and no text that is a real
  literal: it reads no text as a REAL, turns no REAL into an INTEGER and renders every
  REAL as \<^verbatim>\<open>?\<close>. No theorem depends on it.
\<close>

definition example_engine :: engine where
  "example_engine =
     \<lparr>real_literal = (\<lambda>s. None), real_to_int = (\<lambda>d. None), render_real = (\<lambda>d. ''?'')\<rparr>"

text \<open>
  The database of a new file once the levels table has been created: no level, and no
  videos table.
\<close>

definition fresh_store :: store where
  "fresh_store = \<lparr>levels = [], videos = None, levels_seq = 0, videos_seq = 0\<rparr>"

text \<open>
  A database whose videos table exists, with two levels and four videos: two videos of
  level 2, one of level 5 and one without a level.
\<close>

definition crafts_level :: level where
  "crafts_level = \<lparr>l_id = 2, l_number = SInt 7, l_title = SText ''Crafts'', l_description = SNull,
     l_icon = SNull, l_status = SText ''locked'', l_points = SInt 100,
     l_created_at = ''2024-01-01 00:00:00''\<rparr>"

definition dance_level :: level where
  "dance_level = \<lparr>l_id = 5, l_number = SInt 3, l_title = SText ''Dance'', l_description = SNull,
     l_icon = SNull, l_status = SText ''available'', l_points = SInt 50,
     l_created_at = ''2024-01-02 00:00:00''\<rparr>"

definition holi_video :: video where
  "holi_video = \<lparr>v_id = 1, v_level_id = SInt 2, v_title = SText ''Holi'', v_description = SNull,
     v_filename = SText ''holi.mp4'', v_file_size = SInt 3, v_mime_type = SText ''video/mp4'',
     v_video_data = SText ''QUJD'', v_created_at = ''2024-01-03 00:00:00''\<rparr>"

definition garba_video :: video where
  "garba_video = \<lparr>v_id = 2, v_level_id = SInt 5, v_title = SText ''Garba'', v_description = SNull,
     v_filename = SText ''garba.mp4'', v_file_size = SInt 3, v_mime_type = SText ''video/mp4'',
     v_video_data = SText ''REVG'', v_created_at = ''2024-01-03 00:00:01''\<rparr>"

definition intro_video :: video where
  "intro_video = \<lparr>v_id = 3, v_level_id = SNull, v_title = SText ''Intro'', v_description = SNull,
     v_filename = SNull, v_file_size = SNull, v_mime_type = SNull,
     v_video_data = SText ''R0hJ'', v_created_at = ''2024-01-03 00:00:02''\<rparr>"

definition diwali_video :: video where
  "diwali_video = \<lparr>v_id = 4, v_level_id = SInt 2, v_title = SText ''Diwali'', v_description = SNull,
     v_filename = SText ''diwali.mp4'', v_file_size = SInt 3, v_mime_type = SText ''video/mp4'',
     v_video_data = SText ''SktM'', v_created_at = ''2024-01-03 00:00:03''\<rparr>"

definition demo_store :: store where
  "demo_store = \<lparr>levels = [crafts_level, dance_level],
     videos = Some [holi_video, garba_video, intro_video, diwali_video],
     levels_seq = 5, videos_seq = 4\<rparr>"

definition upload_body :: video_body where
  "upload_body = \<lparr>level_id = JNum (Finite 5), video_title = JStr ''Onam'',
     video_description = JUndefined, videoData = JStr ''T05B'', filename = JStr ''onam.mp4'',
     fileSize = JNum (Finite 3), mimeType = JStr ''video/mp4''\<rparr>"

definition no_data_body :: video_body where
  "no_data_body = upload_body\<lparr>videoData := JUndefined\<rparr>"

definition empty_data_body :: video_body where
  "empty_data_body = upload_body\<lparr>videoData := JStr []\<rparr>"

definition dance_forms :: level_body where
  "dance_forms = \<lparr>number = JNum (Finite 4), title = JStr ''Dance Forms'', description = JUndefined,
     icon = JUndefined, status = JUndefined, points = JNum (Finite 120)\<rparr>"

definition untitled_body :: level_body where
  "untitled_body = \<lparr>number = JNum (Finite 7), title = JUndefined, description = JUndefined,
     icon = JUndefined, status = JStr ''available'', points = JNum (Finite 10)\<rparr>"

text \<open>A store that already has a level with the number 2, made by hand and not by the seeding.\<close>

definition custom_level :: level where
  "custom_level = \<lparr>l_id = 1, l_number = SInt 2, l_title = SText ''Yoga'', l_description = SNull,
     l_icon = SNull, l_status = SText ''available'', l_points = SInt 75,
     l_created_at = ''2024-01-01 00:00:00''\<rparr>"

definition custom_store :: store where
  "custom_store = \<lparr>levels = [custom_level], videos = None, levels_seq = 1, videos_seq = 0\<rparr>"

text \<open>The schedule that runs the three chains one after the other, in the order of the array.\<close>

definition in_array_order :: "nat list" where
  "in_array_order = [0, 0, 1, 1, 2, 2]"

text \<open>
  A schedule that runs the three look-ups from the last to the first and then the
  inserts of the third and of the first sample level.
\<close>

definition last_first :: "nat list" where
  "last_first = [2, 1, 0, 2, 0]"

definition at_noon :: "nat \<Rightarrow> string" where
  "at_noon i = ''2024-02-01 12:00:00''"

section \<open>Properties of the routes\<close>

subsection \<open>Auxiliary facts\<close>

lemma filter_none: "\<forall>x\<in>set xs. \<not> P x \<Longrightarrow> filter P xs = []"
  by (induction xs) auto

lemma filter_all_not: "\<forall>x\<in>set xs. \<not> P x \<Longrightarrow> filter (\<lambda>x. \<not> P x) xs = xs"
  by (induction xs) auto

lemma find_none: "\<forall>x\<in>set xs. \<not> P x \<Longrightarrow> find P xs = None"
  by (induction xs) auto

lemma falsy_cases:
  "\<not> truthy v \<longleftrightarrow> v \<in> {JUndefined, JNull, JBool False, JNum (Finite 0), JStr []}"
  by (cases v) auto

lemma sql_eq_int: "sql_eq (SInt a) (SInt b) \<longleftrightarrow> a = b"
  by (simp add: sql_eq_def)

lemma sql_eq_null: "\<not> sql_eq SNull b" "\<not> sql_eq a SNull"
  by (simp_all add: sql_eq_def)

subsection \<open>Start-up\<close>

text \<open>
  The statement that creates the videos table is refused, so the start-up ends there:
  it creates no videos table and does not seed the levels.
\<close>

lemma initializeDatabase_stops: "initializeDatabase e sched clock db = db"
  by (simp add: initializeDatabase_def create_levels_table_def create_videos_table_def)

subsection \<open>Uploads without a payload\<close>

text \<open>
  Claim C2. For every request body in which \<^verbatim>\<open>videoData\<close> is absent,
  \<^verbatim>\<open>POST /api/videos\<close> answers 400 with an error body and leaves the store as it was.
\<close>

theorem post_video_without_videoData:
  assumes "videoData body = JUndefined"
  shows "post_video e now body db =
    (\<lparr>status_code = 400, payload = Error ''No video data provided''\<rparr>, db)"
  using assms by (simp add: post_video_def failure_def)

theorem post_video_without_videoData_witness:
  "videoData no_data_body = JUndefined \<and>
   post_video example_engine ''2024-02-01 00:00:00'' no_data_body demo_store =
     (\<lparr>status_code = 400, payload = Error ''No video data provided''\<rparr>, demo_store)"
  using post_video_without_videoData
    [of no_data_body example_engine "''2024-02-01 00:00:00''" demo_store]
  by (simp add: no_data_body_def)

text \<open>
  Claim C10. \<^verbatim>\<open>POST /api/videos\<close> answers 400 and inserts no row for every falsy
  \<^verbatim>\<open>videoData\<close>, the empty string included.
\<close>

theorem post_video_falsy_videoData:
  assumes "\<not> truthy (videoData body)"
  shows "post_video e now body db =
    (\<lparr>status_code = 400, payload = Error ''No video data provided''\<rparr>, db)"
  using assms by (simp add: post_video_def failure_def)

theorem post_video_falsy_videoData_witness:
  "videoData empty_data_body = JStr [] \<and> \<not> truthy (videoData empty_data_body) \<and>
   post_video example_engine ''2024-02-01 00:00:00'' empty_data_body demo_store =
     (\<lparr>status_code = 400, payload = Error ''No video data provided''\<rparr>, demo_store)"
  using post_video_falsy_videoData
    [of empty_data_body example_engine "''2024-02-01 00:00:00''" demo_store]
  by (simp add: empty_data_body_def)

subsection \<open>Deleting a level\<close>

text \<open>
  On a database that has a videos table, \<^verbatim>\<open>DELETE /api/levels/:id\<close> removes the videos
  whose \<^verbatim>\<open>level_id\<close> equals the id and the level with that id, keeps every other row and
  answers 200, and the listing of the videos of that level is then empty.
\<close>

lemma delete_level_on_videos_table:
  assumes "videos db = Some vs"
  shows "fst (delete_level e ident db) =
     \<lparr>status_code = 200, payload = Message ''Level and associated videos deleted successfully''\<rparr> \<and>
   videos (snd (delete_level e ident db)) =
     Some (filter (\<lambda>v. \<not> video_level_is e (SText ident) v) vs) \<and>
   levels (snd (delete_level e ident db)) =
     filter (\<lambda>r. \<not> level_id_is e (SText ident) r) (levels db) \<and>
   get_videos_by_level e ident (snd (delete_level e ident db)) =
     \<lparr>status_code = 200, payload = Videos []\<rparr>"
  using assms
  by (simp add: delete_level_def delete_videos_of_level_def delete_level_row_def
      get_videos_by_level_def select_videos_of_level_def json_def filter_none)

text \<open>
  Claim C1. For every level id \<open>L\<close>, \<^verbatim>\<open>DELETE /api/levels/:id\<close> removes every video row
  whose \<^verbatim>\<open>level_id\<close> equals \<open>L\<close> and then the level row with id \<open>L\<close>, so that
  \<^verbatim>\<open>GET /api/videos/level/L\<close> then answers the empty list. The program does not do that on
  the database it sets up itself: on every database without a videos table the first
  DELETE fails, the handler answers 500 and the store stays as it was, the level row
  included, and the listing answers 500 too. So it is after the start-up on a new file
  and the creation of one level, which gets the id 1.
\<close>

theorem delete_level_without_videos_table:
  "delete_level e ident (db\<lparr>videos := None\<rparr>) =
     (\<lparr>status_code = 500, payload = Error ''SQLITE_ERROR: no such table: videos''\<rparr>,
      db\<lparr>videos := None\<rparr>) \<and>
   get_videos_by_level e ident (db\<lparr>videos := None\<rparr>) =
     \<lparr>status_code = 500, payload = Error ''SQLITE_ERROR: no such table: videos''\<rparr> \<and>
   fst (post_level e now dance_forms (initializeDatabase e sched clock fresh_store)) =
     \<lparr>status_code = 200, payload = Created 1 ''Level created successfully''\<rparr> \<and>
   delete_level e ''1'' (snd (post_level e now dance_forms (initializeDatabase e sched clock fresh_store))) =
     (\<lparr>status_code = 500, payload = Error ''SQLITE_ERROR: no such table: videos''\<rparr>,
      snd (post_level e now dance_forms (initializeDatabase e sched clock fresh_store))) \<and>
   map l_id (levels (snd (post_level e now dance_forms (initializeDatabase e sched clock fresh_store)))) =
     [1] \<and>
   get_videos_by_level e ''1''
       (snd (post_level e now dance_forms (initializeDatabase e sched clock fresh_store))) =
     \<lparr>status_code = 500, payload = Error ''SQLITE_ERROR: no such table: videos''\<rparr>"
  by (simp add: delete_level_def delete_videos_of_level_def get_videos_by_level_def
      select_videos_of_level_def failure_def json_def initializeDatabase_stops fresh_store_def
      post_level_def insert_level_def rowid_full_def max_rowid_def dance_forms_def
      new_level_row_def Let_def)

subsection \<open>Ids that match no row\<close>

text \<open>
  On a database that has a videos table: for an id that matches no row,
  \<^verbatim>\<open>GET /api/videos/:id\<close> answers 404, \<^verbatim>\<open>GET /api/levels/:id\<close> answers 200 with no row,
  and \<^verbatim>\<open>PUT /api/levels/:id\<close> and \<^verbatim>\<open>DELETE /api/videos/:id\<close> change no row, leave the
  store as it was and answer 200.
\<close>

lemma get_absent_on_videos_table:
  "(videos db = Some vs \<and> (\<forall>v\<in>set vs. \<not> video_id_is e (SText ident) v) \<longrightarrow>
      get_video e ident db = \<lparr>status_code = 404, payload = Error ''Video not found''\<rparr>) \<and>
   ((\<forall>r\<in>set (levels db). \<not> level_id_is e (SText ident) r) \<longrightarrow>
      get_level e ident db = \<lparr>status_code = 200, payload = LevelRow None\<rparr>)"
  by (simp add: get_video_def get_level_def select_video_def select_level_def find_none
      failure_def json_def)

lemma update_and_delete_absent_on_videos_table:
  "((\<forall>r\<in>set (levels db). \<not> level_id_is e (SText ident) r) \<longrightarrow>
      update_level e n t d i s p (SText ident) db = Inr (0, db) \<and>
      put_level e ident body db =
        (\<lparr>status_code = 200, payload = Message ''Level updated successfully''\<rparr>, db)) \<and>
   (videos db = Some vs \<and> (\<forall>v\<in>set vs. \<not> video_id_is e (SText ident) v) \<longrightarrow>
      delete_video_row e (SText ident) db = Inr (0, db) \<and>
      delete_video e ident db =
        (\<lparr>status_code = 200, payload = Message ''Video deleted successfully''\<rparr>, db))"
proof -
  have "db\<lparr>videos := Some vs\<rparr> = db" if "videos db = Some vs"
    using that by (cases db) simp
  then show ?thesis
    by (auto simp add: update_level_def put_level_def delete_video_row_def delete_video_def
        filter_none filter_all_not json_def)
qed

text \<open>
  Claim C3. For every id that matches no row, \<^verbatim>\<open>GET /api/videos/:id\<close> answers 404 with
  the error \<^verbatim>\<open>Video not found\<close>, while \<^verbatim>\<open>GET /api/levels/:id\<close> answers 200 with no row.
  The program does the second but not the first on the database it sets up itself: on
  every database without a videos table the look-up of a video fails and the handler
  answers 500. So it is for the id 9 after the start-up on a new file.
\<close>

theorem get_video_without_videos_table:
  "get_video e ident (db\<lparr>videos := None\<rparr>) =
     \<lparr>status_code = 500, payload = Error ''SQLITE_ERROR: no such table: videos''\<rparr> \<and>
   get_video e ''9'' (initializeDatabase e sched clock fresh_store) =
     \<lparr>status_code = 500, payload = Error ''SQLITE_ERROR: no such table: videos''\<rparr> \<and>
   get_level e ''9'' (initializeDatabase e sched clock fresh_store) =
     \<lparr>status_code = 200, payload = LevelRow None\<rparr>"
  by (simp add: get_video_def select_video_def get_level_def select_level_def failure_def
      json_def initializeDatabase_stops fresh_store_def)

text \<open>
  Claim C4. For every id that matches no row, \<^verbatim>\<open>PUT /api/levels/:id\<close> and
  \<^verbatim>\<open>DELETE /api/videos/:id\<close> change zero rows, leave the store as it was and answer 200
  with their success message. The program does so for the PUT, but not for the DELETE on
  the database it sets up itself: on every database without a videos table the DELETE
  fails and the handler answers 500. So it is for the id 9 after the start-up on a new
  file.
\<close>

theorem delete_video_without_videos_table:
  "delete_video e ident (db\<lparr>videos := None\<rparr>) =
     (\<lparr>status_code = 500, payload = Error ''SQLITE_ERROR: no such table: videos''\<rparr>,
      db\<lparr>videos := None\<rparr>) \<and>
   delete_video e ''9'' (initializeDatabase e sched clock fresh_store) =
     (\<lparr>status_code = 500, payload = Error ''SQLITE_ERROR: no such table: videos''\<rparr>,
      initializeDatabase e sched clock fresh_store) \<and>
   put_level e ''9'' body (initializeDatabase e sched clock fresh_store) =
     (\<lparr>status_code = 200, payload = Message ''Level updated successfully''\<rparr>,
      initializeDatabase e sched clock fresh_store)"
  by (simp add: delete_video_def delete_video_row_def put_level_def update_level_def
      failure_def json_def initializeDatabase_stops fresh_store_def)

subsection \<open>Listing the levels\<close>

lemma sort_rank_int_le: "sort_rank (SInt m) \<le> sort_rank (SInt n) \<longleftrightarrow> m \<le> n"
  by (auto simp add: less_eq_prod_def)

lemma sorted_levels:
  "sorted (map (\<lambda>r. sort_rank (l_number r)) (sort_key (\<lambda>r. sort_rank (l_number r)) ls))"
  by simp

lemma sorted_levels_int_ascending:
  "sorted_wrt (\<lambda>a b. \<forall>m n. l_number a = SInt m \<and> l_number b = SInt n \<longrightarrow> m \<le> n)
     (sort_key (\<lambda>r. sort_rank (l_number r)) ls)"
proof -
  have "sorted_wrt (\<lambda>a b. sort_rank (l_number a) \<le> sort_rank (l_number b))
      (sort_key (\<lambda>r. sort_rank (l_number r)) ls)"
    using sorted_levels [of ls] by (simp add: sorted_map)
  then show ?thesis
    by (rule sorted_wrt_mono_rel [rotated]) (auto simp add: less_eq_prod_def)
qed

lemma insert_level_row:
  assumes "insert_level e now n t d i s p db = Inr (rid, db')"
  shows "levels db' = levels db @ [new_level_row e rid now n t d i s p] \<and>
         rid = next_rowid (levels_seq db) (map l_id (levels db)) \<and>
         \<not> rowid_full (levels_seq db) (map l_id (levels db)) \<and>
         levels_seq db' = rid \<and> videos db' = videos db \<and> videos_seq db' = videos_seq db"
  using assms by (auto simp add: insert_level_def Let_def split: if_splits)

text \<open>
  Claim C5. For every store, \<^verbatim>\<open>GET /api/levels\<close> answers 200 with all stored levels,
  each once, in ascending order of \<^verbatim>\<open>number\<close> (NULL first, then numbers by value, then
  text); and after a \<^verbatim>\<open>POST /api/levels\<close> that answered 200 the listing holds the created
  row: the row with the returned id and the posted fields as the columns store them.
\<close>

theorem get_levels_sorted_and_created:
  "(\<exists>rows. get_levels db = \<lparr>status_code = 200, payload = Levels rows\<rparr> \<and>
      mset rows = mset (levels db) \<and>
      sorted (map (\<lambda>r. sort_rank (l_number r)) rows) \<and>
      sorted_wrt (\<lambda>a b. \<forall>m n. l_number a = SInt m \<and> l_number b = SInt n \<longrightarrow> m \<le> n) rows) \<and>
   (\<forall>res db'. post_level e now body db = (res, db') \<and> status_code res = 200 \<longrightarrow>
      (\<exists>rid rows. payload res = Created rid ''Level created successfully'' \<and>
         get_levels db' = \<lparr>status_code = 200, payload = Levels rows\<rparr> \<and>
         new_level_row e rid now (bind_parameter (number body)) (bind_parameter (title body))
           (bind_parameter (description body)) (bind_parameter (icon body))
           (bind_parameter (status body)) (bind_parameter (points body)) \<in> set rows))"
proof (intro conjI allI impI)
  show "\<exists>rows. get_levels db = \<lparr>status_code = 200, payload = Levels rows\<rparr> \<and>
      mset rows = mset (levels db) \<and>
      sorted (map (\<lambda>r. sort_rank (l_number r)) rows) \<and>
      sorted_wrt (\<lambda>a b. \<forall>m n. l_number a = SInt m \<and> l_number b = SInt n \<longrightarrow> m \<le> n) rows"
    using sorted_levels [of "levels db"] sorted_levels_int_ascending [of "levels db"]
    by (simp add: get_levels_def select_levels_def json_def)
next
  fix res db'
  assume a: "post_level e now body db = (res, db') \<and> status_code res = 200"
  let ?row = "\<lambda>rid. new_level_row e rid now (bind_parameter (number body))
      (bind_parameter (title body)) (bind_parameter (description body))
      (bind_parameter (icon body)) (bind_parameter (status body)) (bind_parameter (points body))"
  from a obtain rid where
    ins: "insert_level e now (bind_parameter (number body)) (bind_parameter (title body))
             (bind_parameter (description body)) (bind_parameter (icon body))
             (bind_parameter (status body)) (bind_parameter (points body)) db = Inr (rid, db')"
    and res: "res = json (Created rid ''Level created successfully'')"
    by (auto simp add: post_level_def failure_def split: sum.splits)
  from insert_level_row [OF ins] have "levels db' = levels db @ [?row rid]" by simp
  then have "?row rid \<in> set (sort_key (\<lambda>r. sort_rank (l_number r)) (levels db'))"
    by simp
  with res show "\<exists>rid rows. payload res = Created rid ''Level created successfully'' \<and>
         get_levels db' = \<lparr>status_code = 200, payload = Levels rows\<rparr> \<and> ?row rid \<in> set rows"
    by (auto simp add: get_levels_def select_levels_def json_def)
qed

theorem get_levels_sorted_and_created_witness:
  "status_code (fst (post_level example_engine ''2024-02-01 00:00:00'' dance_forms demo_store)) = 200 \<and>
   (\<exists>rid rows.
      payload (fst (post_level example_engine ''2024-02-01 00:00:00'' dance_forms demo_store)) =
        Created rid ''Level created successfully'' \<and>
      get_levels (snd (post_level example_engine ''2024-02-01 00:00:00'' dance_forms demo_store)) =
        \<lparr>status_code = 200, payload = Levels rows\<rparr> \<and>
      new_level_row example_engine rid ''2024-02-01 00:00:00'' (SInt 4) (SText ''Dance Forms'')
        SNull SNull SNull (SInt 120) \<in> set rows) \<and>
   get_levels (snd (post_level example_engine ''2024-02-01 00:00:00'' dance_forms demo_store)) =
     \<lparr>status_code = 200, payload = Levels
        [dance_level,
         \<lparr>l_id = 6, l_number = SInt 4, l_title = SText ''Dance Forms'', l_description = SNull,
          l_icon = SNull, l_status = SNull, l_points = SInt 120,
          l_created_at = ''2024-02-01 00:00:00''\<rparr>,
         crafts_level]\<rparr>"
proof -
  let ?r = "post_level example_engine ''2024-02-01 00:00:00'' dance_forms demo_store"
  have ok: "status_code (fst ?r) = 200" by code_simp
  have b: "bind_parameter (number dance_forms) = SInt 4"
      "bind_parameter (title dance_forms) = SText ''Dance Forms''"
      "bind_parameter (description dance_forms) = SNull"
      "bind_parameter (icon dance_forms) = SNull"
      "bind_parameter (status dance_forms) = SNull"
      "bind_parameter (points dance_forms) = SInt 120"
    by (simp_all add: dance_forms_def)
  have listing: "get_levels (snd ?r) =
     \<lparr>status_code = 200, payload = Levels
        [dance_level,
         \<lparr>l_id = 6, l_number = SInt 4, l_title = SText ''Dance Forms'', l_description = SNull,
          l_icon = SNull, l_status = SNull, l_points = SInt 120,
          l_created_at = ''2024-02-01 00:00:00''\<rparr>,
         crafts_level]\<rparr>"
    by code_simp
  have "?r = (fst ?r, snd ?r) \<and> status_code (fst ?r) = 200" using ok by simp
  with get_levels_sorted_and_created
    [of demo_store example_engine "''2024-02-01 00:00:00''" dance_forms]
  have "\<exists>rid rows. payload (fst ?r) = Created rid ''Level created successfully'' \<and>
      get_levels (snd ?r) = \<lparr>status_code = 200, payload = Levels rows\<rparr> \<and>
      new_level_row example_engine rid ''2024-02-01 00:00:00'' (SInt 4) (SText ''Dance Forms'')
        SNull SNull SNull (SInt 120) \<in> set rows"
    unfolding b by blast
  with ok listing show ?thesis by blast
qed

subsection \<open>Listing the videos\<close>

lemma left_join_nonempty: "left_join_level ls v \<noteq> []"
  by (auto simp add: left_join_level_def split: list.splits)

lemma left_join_fields:
  assumes "j \<in> set (left_join_level ls v)"
  shows "jv_video j = v \<and>
         ((\<exists>l\<in>set ls. joins_level v l \<and>
             level_number j = l_number l \<and> level_title j = l_title l) \<or>
          ((\<forall>l\<in>set ls. \<not> joins_level v l) \<and>
             level_number j = SNull \<and> level_title j = SNull))"
proof (cases "filter (joins_level v) ls")
  case Nil
  then have "\<forall>l\<in>set ls. \<not> joins_level v l"
    by (simp add: filter_empty_conv)
  with Nil assms show ?thesis by (simp add: left_join_level_def)
next
  case (Cons m ms)
  with assms have "j \<in> (\<lambda>l. \<lparr>jv_video = v, level_number = l_number l, level_title = l_title l\<rparr>) `
      set (m # ms)"
    by (simp add: left_join_level_def)
  then obtain l where l: "l \<in> set (m # ms)"
      "j = \<lparr>jv_video = v, level_number = l_number l, level_title = l_title l\<rparr>"
    by blast
  from l(1) have "l \<in> set (filter (joins_level v) ls)"
    by (simp only: Cons)
  then have "l \<in> set ls" "joins_level v l"
    by simp_all
  with l(2) show ?thesis by auto
qed

lemma filter_joins_distinct:
  "distinct (map l_id ls) \<Longrightarrow> length (filter (joins_level v) ls) \<le> 1"
proof (induction ls)
  case Nil
  show ?case by simp
next
  case (Cons l ls)
  show ?case
  proof (cases "joins_level v l")
    case True
    have "\<not> joins_level v l'" if "l' \<in> set ls" for l'
    proof
      assume "joins_level v l'"
      with True have "sort_rank (SInt (l_id l)) = sort_rank (SInt (l_id l'))"
        by (simp add: joins_level_def sql_eq_def)
      then have "l_id l = l_id l'" by simp
      with that Cons.prems show False by auto
    qed
    then have "filter (joins_level v) ls = []" by (simp add: filter_empty_conv)
    with True show ?thesis by simp
  next
    case False
    with Cons show ?thesis by simp
  qed
qed

lemma left_join_single:
  assumes "distinct (map l_id ls)"
  shows "map jv_video (left_join_level ls v) = [v]"
proof (cases "filter (joins_level v) ls")
  case Nil
  show ?thesis unfolding left_join_level_def Nil by simp
next
  case (Cons m ms)
  have "length (filter (joins_level v) ls) \<le> 1"
    using assms by (rule filter_joins_distinct)
  then have ms: "ms = []" unfolding Cons by simp
  show ?thesis unfolding left_join_level_def Cons ms by simp
qed

lemma left_join_videos: "jv_video ` set (left_join_level ls v) = {v}"
proof (cases "filter (joins_level v) ls")
  case Nil
  show ?thesis unfolding left_join_level_def Nil by simp
next
  case (Cons m ms)
  show ?thesis unfolding left_join_level_def Cons by (auto simp add: image_image)
qed

lemma joined_videos_set:
  "jv_video ` set (sort_key join_key (concat (map (left_join_level ls) vs))) = set vs"
proof -
  have "jv_video ` set (concat (map (left_join_level ls) vs)) = set vs"
    by (induction vs) (simp_all add: image_Un left_join_videos)
  then show ?thesis by simp
qed

lemma joined_videos_mset:
  assumes "distinct (map l_id ls)"
  shows "mset (map jv_video (sort_key join_key (concat (map (left_join_level ls) vs)))) = mset vs"
proof -
  have "map jv_video (concat (map (left_join_level ls) vs)) = vs"
    by (induction vs) (simp_all add: left_join_single [OF assms])
  then have "mset (map jv_video (concat (map (left_join_level ls) vs))) = mset vs"
    by simp
  then show ?thesis by simp
qed

text \<open>
  On a database that has a videos table, \<^verbatim>\<open>GET /api/videos\<close> answers 200 with every video
  row, whole (so with its \<^verbatim>\<open>video_data\<close>), joined with the number and title of the level
  whose id is its \<^verbatim>\<open>level_id\<close>, or with NULL for both when there is no such level, in the
  order of level number, then video title. Level ids being a primary key, each video
  comes once.
\<close>

lemma get_videos_on_videos_table:
  assumes "videos db = Some vs"
  shows "\<exists>rows. get_videos db = \<lparr>status_code = 200, payload = JoinedVideos rows\<rparr> \<and>
     jv_video ` set rows = set vs \<and>
     (distinct (map l_id (levels db)) \<longrightarrow> mset (map jv_video rows) = mset vs) \<and>
     (\<forall>j\<in>set rows.
        (\<exists>l\<in>set (levels db). joins_level (jv_video j) l \<and>
            level_number j = l_number l \<and> level_title j = l_title l) \<or>
        ((\<forall>l\<in>set (levels db). \<not> joins_level (jv_video j) l) \<and>
            level_number j = SNull \<and> level_title j = SNull)) \<and>
     sorted (map (\<lambda>j. (sort_rank (level_number j), sort_rank (v_title (jv_video j)))) rows)"
proof -
  let ?rows = "sort_key join_key (concat (map (left_join_level (levels db)) vs))"
  have fields: "\<forall>j\<in>set ?rows.
        (\<exists>l\<in>set (levels db). joins_level (jv_video j) l \<and>
            level_number j = l_number l \<and> level_title j = l_title l) \<or>
        ((\<forall>l\<in>set (levels db). \<not> joins_level (jv_video j) l) \<and>
            level_number j = SNull \<and> level_title j = SNull)"
  proof
    fix j assume "j \<in> set ?rows"
    then obtain v where v: "j \<in> set (left_join_level (levels db) v)"
      by auto
    from left_join_fields [OF v]
    show "(\<exists>l\<in>set (levels db). joins_level (jv_video j) l \<and>
            level_number j = l_number l \<and> level_title j = l_title l) \<or>
        ((\<forall>l\<in>set (levels db). \<not> joins_level (jv_video j) l) \<and>
            level_number j = SNull \<and> level_title j = SNull)"
      by simp
  qed
  have sorted: "sorted (map (\<lambda>j. (sort_rank (level_number j), sort_rank (v_title (jv_video j))))
      ?rows)"
    using sorted_sort_key [of join_key]
    by (simp add: join_key_def [abs_def])
  have reply: "get_videos db = \<lparr>status_code = 200, payload = JoinedVideos ?rows\<rparr>"
    using assms by (simp add: get_videos_def select_videos_joined_def json_def)
  show ?thesis
    by (rule exI [of _ ?rows])
      (use reply fields sorted joined_videos_set [of "levels db" vs]
        joined_videos_mset [of "levels db" vs] in blast)
qed

text \<open>
  Claim C7. For every store, \<^verbatim>\<open>GET /api/videos\<close> returns every video row with its
  payload, joined with the number and title of its level, in the order of level number,
  then video title. The program does not do that on the database it sets up itself: on
  every database without a videos table the SELECT fails and the handler answers 500. So
  it is after the start-up on a new file.
\<close>

theorem get_videos_without_videos_table:
  "get_videos (db\<lparr>videos := None\<rparr>) =
     \<lparr>status_code = 500, payload = Error ''SQLITE_ERROR: no such table: videos''\<rparr> \<and>
   get_videos (initializeDatabase e sched clock fresh_store) =
     \<lparr>status_code = 500, payload = Error ''SQLITE_ERROR: no such table: videos''\<rparr>"
  by (simp add: get_videos_def select_videos_joined_def failure_def initializeDatabase_stops
      fresh_store_def)

subsection \<open>Row ids\<close>

lemma fold_max_ge_start: "s \<le> fold max ids (s::int)"
proof (induction ids arbitrary: s)
  case Nil
  show ?case by simp
next
  case (Cons a ids)
  have "s \<le> max a s" by simp
  also have "\<dots> \<le> fold max ids (max a s)" by (rule Cons.IH)
  finally show ?case by simp
qed

lemma fold_max_ge_elem: "x \<in> set ids \<Longrightarrow> x \<le> fold max ids (s::int)"
proof (induction ids arbitrary: s)
  case Nil
  then show ?case by simp
next
  case (Cons a ids)
  show ?case
  proof (cases "x = a")
    case True
    have "a \<le> max a s" by simp
    also have "\<dots> \<le> fold max ids (max a s)" by (rule fold_max_ge_start)
    finally show ?thesis using True by simp
  next
    case False
    with Cons.prems have "x \<in> set ids" by simp
    then show ?thesis using Cons.IH by simp
  qed
qed



lemma next_rowid_fresh: "x \<in> set ids \<Longrightarrow> x < next_rowid seq ids"
proof (cases ids)
  case Nil
  then show "x \<in> set ids \<Longrightarrow> x < next_rowid seq ids" by simp
next
  case (Cons i rest)
  assume "x \<in> set ids"
  then have "x \<le> fold max rest i"
    using fold_max_ge_start [of i rest] fold_max_ge_elem [of x rest i] Cons by auto
  then show "x < next_rowid seq ids" using Cons by simp
qed


text \<open>Level ids stay distinct under the three routes that write levels.\<close>

lemma post_level_ids_distinct:
  assumes "distinct (map l_id (levels db))"
  shows "distinct (map l_id (levels (snd (post_level e now body db))))"
proof (cases "insert_level e now (bind_parameter (number body)) (bind_parameter (title body))
             (bind_parameter (description body)) (bind_parameter (icon body))
             (bind_parameter (status body)) (bind_parameter (points body)) db")
  case (Inl err)
  with assms show ?thesis by (simp add: post_level_def)
next
  case (Inr r)
  obtain rid db' where r: "r = (rid, db')" by (cases r)
  from insert_level_row [OF Inr [unfolded r]] have
    row: "levels db' = levels db @ [new_level_row e rid now (bind_parameter (number body))
        (bind_parameter (title body)) (bind_parameter (description body))
        (bind_parameter (icon body)) (bind_parameter (status body))
        (bind_parameter (points body))]"
    and rid: "rid = next_rowid (levels_seq db) (map l_id (levels db))" by simp_all
  have "rid \<notin> set (map l_id (levels db))"
    using next_rowid_fresh [of rid "map l_id (levels db)" "levels_seq db"] rid by auto
  with assms row Inr r show ?thesis by (simp add: post_level_def new_level_row_def)
qed

lemma put_level_ids_distinct:
  assumes "distinct (map l_id (levels db))"
  shows "distinct (map l_id (levels (snd (put_level e ident body db))))"
proof -
  have ids: "l_id \<circ> (\<lambda>r. if c r then r\<lparr>l_number := a1, l_title := a2, l_description := a3,
      l_icon := a4, l_status := a5, l_points := a6\<rparr> else r) = l_id"
    for c a1 a2 a3 a4 a5 a6
    by (simp add: fun_eq_iff)
  from assms show ?thesis
    by (simp add: put_level_def update_level_def Let_def ids)
qed

lemma delete_level_ids_distinct:
  assumes "distinct (map l_id (levels db))"
  shows "distinct (map l_id (levels (snd (delete_level e ident db))))"
  using assms
  by (simp add: delete_level_def delete_videos_of_level_def delete_level_row_def
      distinct_map_filter split: option.splits)

subsection \<open>An id written in decimal is read back\<close>













subsection \<open>Uploading a video and reading it back\<close>






subsection \<open>Seeding the sample levels\<close>

lemma sample_numbers:
  assumes "i < length sampleLevels"
  shows "bind_parameter (number (sampleLevels ! i)) = SInt (int i + 1)"
    and "text_affinity e (bind_parameter (title (sampleLevels ! i))) \<noteq> SNull"
proof -
  from assms have "i = 0 \<or> i = 1 \<or> i = 2" by (auto simp add: sampleLevels_def)
  then show "bind_parameter (number (sampleLevels ! i)) = SInt (int i + 1)"
    by (auto simp add: sampleLevels_def)
  from \<open>i = 0 \<or> i = 1 \<or> i = 2\<close>
  show "text_affinity e (bind_parameter (title (sampleLevels ! i))) \<noteq> SNull"
    by (auto simp add: sampleLevels_def)
qed

lemma number_present_iff:
  assumes "i < length sampleLevels"
  shows "number_present e (sampleLevels ! i) db \<longleftrightarrow>
    (\<exists>r\<in>set (levels db). sql_eq (l_number r) (SInt (int i + 1)))"
  by (simp add: number_present_def level_number_is_def sample_numbers(1) [OF assms] list_ex_iff)

lemma number_present_append:
  assumes "i < length sampleLevels" "levels db' = levels db @ xs"
  shows "number_present e (sampleLevels ! i) db' \<longleftrightarrow>
    number_present e (sampleLevels ! i) db \<or>
    (\<exists>r\<in>set xs. sql_eq (l_number r) (SInt (int i + 1)))"
  using assms(2) by (auto simp add: number_present_iff [OF assms(1)])

lemma sample_row_number:
  assumes "i < length sampleLevels"
  shows "l_number (sample_row e rid now (sampleLevels ! i)) = SInt (int i + 1)"
  by (simp add: sample_row_def new_level_row_def sample_numbers(1) [OF assms])

lemma lookup_step:
  assumes "i < length ts" "ts ! i = Lookup lv"
  shows "seed_step e clock i (ts, db) =
    (ts[i := if number_present e lv db then Finished else Insert lv], db)"
proof (cases "find (level_number_is e (bind_parameter (number lv))) (levels db)")
  case None
  then have "\<not> number_present e lv db"
    by (simp add: number_present_def list_ex_iff find_None_iff)
  with None assms show ?thesis
    by (simp add: seed_step_def select_level_by_number_def)
next
  case (Some r)
  then have "number_present e lv db"
    by (auto simp add: number_present_def list_ex_iff find_Some_iff)
  with Some assms show ?thesis
    by (simp add: seed_step_def select_level_by_number_def)
qed

lemma insert_step:
  assumes "i < length ts" "ts ! i = Insert lv"
  shows "seed_step e clock i (ts, db) =
    (ts[i := Finished],
     case insert_sample e (clock i) lv db of Inl err \<Rightarrow> db | Inr (rid, db') \<Rightarrow> db')"
  using assms by (simp add: seed_step_def split: sum.splits)

lemma other_step:
  assumes "\<not> i < length ts \<or> ts ! i = Finished"
  shows "seed_step e clock i (ts, db) = (ts, db)"
  using assms by (auto simp add: seed_step_def)

lemma insert_sample_full:
  assumes "levels_full db"
  shows "insert_sample e now lv db = Inl DatabaseFull"
  using assms by (simp add: insert_sample_def insert_level_def levels_full_def)

lemma insert_sample_absent:
  assumes "i < length sampleLevels" "\<not> number_present e (sampleLevels ! i) db" "\<not> levels_full db"
  shows "\<exists>rid. insert_sample e now (sampleLevels ! i) db =
    Inr (rid, db\<lparr>levels := levels db @ [sample_row e rid now (sampleLevels ! i)],
                 levels_seq := rid\<rparr>)"
proof -
  have "\<not> list_ex (\<lambda>r. sql_eq (l_number r) (SInt (int i + 1))) (levels db)"
  proof
    assume "list_ex (\<lambda>r. sql_eq (l_number r) (SInt (int i + 1))) (levels db)"
    then obtain r where r: "r \<in> set (levels db)" "sql_eq (l_number r) (SInt (int i + 1))"
      by (auto simp add: list_ex_iff)
    with assms(2) show False by (auto simp add: number_present_iff [OF assms(1)])
  qed
  with assms(3) show ?thesis
    by (simp add: insert_sample_def insert_level_def levels_full_def sample_row_def Let_def
        sample_numbers [OF assms(1)])
qed

lemma seedingI:
  assumes "length ts = length sampleLevels"
    and "videos db = videos db0" "videos_seq db = videos_seq db0"
    and "levels db = levels db0 @ new" "distinct (map l_number new)"
    and "\<forall>r\<in>set new. \<exists>j<length sampleLevels. ts ! j = Finished \<and>
        r = sample_row e (l_id r) (clock j) (sampleLevels ! j) \<and>
        \<not> number_present e (sampleLevels ! j) db0"
    and "\<forall>j<length sampleLevels. ts ! j = Lookup (sampleLevels ! j) \<or>
         (ts ! j = Insert (sampleLevels ! j) \<and> \<not> number_present e (sampleLevels ! j) db) \<or>
         (ts ! j = Finished \<and> (number_present e (sampleLevels ! j) db \<or> levels_full db))"
  shows "seeding e clock db0 (ts, db)"
  unfolding seeding_def fst_conv snd_conv
  using assms(1-3,7) by (intro conjI exI [of _ new]) (use assms(4-6) in simp_all)

lemma seeding_step:
  assumes inv: "seeding e clock db0 (ts, db)"
  shows "seeding e clock db0 (seed_step e clock i (ts, db))"
proof -
  let ?S = sampleLevels
  from inv have len: "length ts = length ?S"
    and vid: "videos db = videos db0" "videos_seq db = videos_seq db0"
    and tasks: "\<forall>j<length ?S. ts ! j = Lookup (?S ! j) \<or>
         (ts ! j = Insert (?S ! j) \<and> \<not> number_present e (?S ! j) db) \<or>
         (ts ! j = Finished \<and> (number_present e (?S ! j) db \<or> levels_full db))"
    by (simp_all add: seeding_def)
  from inv obtain new where new: "levels db = levels db0 @ new" "distinct (map l_number new)"
    "\<forall>r\<in>set new. \<exists>j<length ?S. ts ! j = Finished \<and>
        r = sample_row e (l_id r) (clock j) (?S ! j) \<and> \<not> number_present e (?S ! j) db0"
    by (auto simp add: seeding_def)
  consider (out) "\<not> i < length ts \<or> ts ! i = Finished"
    | (lookup) "i < length ts" "ts ! i = Lookup (?S ! i)"
    | (insert) "i < length ts" "ts ! i = Insert (?S ! i)" "\<not> number_present e (?S ! i) db"
    using tasks len by (cases "i < length ts") auto
  then show ?thesis
  proof cases
    case out
    with inv show ?thesis by (simp add: other_step)
  next
    case lookup
    let ?t = "if number_present e (?S ! i) db then Finished else Insert (?S ! i)"
    have step: "seed_step e clock i (ts, db) = (ts[i := ?t], db)"
      using lookup by (rule lookup_step)
    have t: "\<forall>j<length ?S. ts[i := ?t] ! j = Lookup (?S ! j) \<or>
         (ts[i := ?t] ! j = Insert (?S ! j) \<and> \<not> number_present e (?S ! j) db) \<or>
         (ts[i := ?t] ! j = Finished \<and> (number_present e (?S ! j) db \<or> levels_full db))"
      using tasks lookup(1) len by (auto simp add: nth_list_update)
    have n: "\<forall>r\<in>set new. \<exists>j<length ?S. ts[i := ?t] ! j = Finished \<and>
        r = sample_row e (l_id r) (clock j) (?S ! j) \<and> \<not> number_present e (?S ! j) db0"
    proof
      fix r assume "r \<in> set new"
      with new(3) obtain j where j: "j < length ?S" "ts ! j = Finished"
        "r = sample_row e (l_id r) (clock j) (?S ! j)" "\<not> number_present e (?S ! j) db0"
        by blast
      from j(2) lookup(2) have "j \<noteq> i" by auto
      with j lookup(1) show "\<exists>j<length ?S. ts[i := ?t] ! j = Finished \<and>
        r = sample_row e (l_id r) (clock j) (?S ! j) \<and> \<not> number_present e (?S ! j) db0"
        by (auto simp add: nth_list_update)
    qed
    have "length (ts[i := ?t]) = length ?S" using len by simp
    then show ?thesis
      unfolding step by (rule seedingI [OF _ vid new(1,2) n t])
  next
    case insert
    from insert(1) len have i: "i < length ?S" by simp
    show ?thesis
    proof (cases "levels_full db")
      case True
      have step: "seed_step e clock i (ts, db) = (ts[i := Finished], db)"
        using insert_step [OF insert(1,2)] insert_sample_full [OF True] by simp
      have t: "\<forall>j<length ?S. ts[i := Finished] ! j = Lookup (?S ! j) \<or>
         (ts[i := Finished] ! j = Insert (?S ! j) \<and> \<not> number_present e (?S ! j) db) \<or>
         (ts[i := Finished] ! j = Finished \<and> (number_present e (?S ! j) db \<or> levels_full db))"
        using tasks insert(1) len True by (auto simp add: nth_list_update)
      have n: "\<forall>r\<in>set new. \<exists>j<length ?S. ts[i := Finished] ! j = Finished \<and>
          r = sample_row e (l_id r) (clock j) (?S ! j) \<and> \<not> number_present e (?S ! j) db0"
      proof
        fix r assume "r \<in> set new"
        with new(3) obtain j where j: "j < length ?S" "ts ! j = Finished"
          "r = sample_row e (l_id r) (clock j) (?S ! j)" "\<not> number_present e (?S ! j) db0"
          by blast
        with insert(1) show "\<exists>j<length ?S. ts[i := Finished] ! j = Finished \<and>
          r = sample_row e (l_id r) (clock j) (?S ! j) \<and> \<not> number_present e (?S ! j) db0"
          by (auto simp add: nth_list_update)
      qed
      have "length (ts[i := Finished]) = length ?S" using len by simp
      then show ?thesis
        unfolding step by (rule seedingI [OF _ vid new(1,2) n t])
    next
      case False
      from insert_sample_absent [OF i insert(3) False] obtain rid where
        ins: "insert_sample e (clock i) (?S ! i) db =
          Inr (rid, db\<lparr>levels := levels db @ [sample_row e rid (clock i) (?S ! i)],
                       levels_seq := rid\<rparr>)"
        by blast
      let ?row = "sample_row e rid (clock i) (?S ! i)"
      let ?db' = "db\<lparr>levels := levels db @ [?row], levels_seq := rid\<rparr>"
      have step: "seed_step e clock i (ts, db) = (ts[i := Finished], ?db')"
        using insert_step [OF insert(1,2)] ins by simp
      have rownum: "l_number ?row = SInt (int i + 1)" by (rule sample_row_number [OF i])
      have rowid: "l_id ?row = rid" by (simp add: sample_row_def new_level_row_def)
      have lev': "levels ?db' = levels db @ [?row]" by simp
      have present': "number_present e (?S ! j) ?db' \<longleftrightarrow> number_present e (?S ! j) db \<or> j = i"
        if "j < length ?S" for j
        using number_present_append [OF that lev', of e]
        by (auto simp add: rownum sql_eq_int)
      have absent0: "\<not> number_present e (?S ! i) db0"
        using insert(3) new(1) number_present_append [OF i new(1), of e] by simp
      have fresh: "SInt (int i + 1) \<notin> set (map l_number new)"
      proof
        assume "SInt (int i + 1) \<in> set (map l_number new)"
        then obtain r where r: "r \<in> set new" "l_number r = SInt (int i + 1)" by auto
        from r(2) have "sql_eq (l_number r) (SInt (int i + 1))"
          by (simp add: sql_eq_int)
        moreover from r(1) have "r \<in> set (levels db)" using new(1) by simp
        ultimately have "\<exists>r\<in>set (levels db). sql_eq (l_number r) (SInt (int i + 1))"
          by blast
        with insert(3) show False by (simp add: number_present_iff [OF i])
      qed
      have t: "\<forall>j<length ?S. ts[i := Finished] ! j = Lookup (?S ! j) \<or>
         (ts[i := Finished] ! j = Insert (?S ! j) \<and> \<not> number_present e (?S ! j) ?db') \<or>
         (ts[i := Finished] ! j = Finished \<and>
            (number_present e (?S ! j) ?db' \<or> levels_full ?db'))"
      proof (intro allI impI)
        fix j assume j: "j < length ?S"
        show "ts[i := Finished] ! j = Lookup (?S ! j) \<or>
         (ts[i := Finished] ! j = Insert (?S ! j) \<and> \<not> number_present e (?S ! j) ?db') \<or>
         (ts[i := Finished] ! j = Finished \<and>
            (number_present e (?S ! j) ?db' \<or> levels_full ?db'))"
        proof (cases "j = i")
          case True
          with insert(1) present' [OF j] show ?thesis by simp
        next
          case neq: False
          from tasks j have "ts ! j = Lookup (?S ! j) \<or>
             (ts ! j = Insert (?S ! j) \<and> \<not> number_present e (?S ! j) db) \<or>
             (ts ! j = Finished \<and> (number_present e (?S ! j) db \<or> levels_full db))"
            by simp
          with neq False present' [OF j] show ?thesis by auto
        qed
      qed
      have n: "\<forall>r\<in>set (new @ [?row]). \<exists>j<length ?S. ts[i := Finished] ! j = Finished \<and>
          r = sample_row e (l_id r) (clock j) (?S ! j) \<and> \<not> number_present e (?S ! j) db0"
      proof
        fix r assume "r \<in> set (new @ [?row])"
        then consider "r \<in> set new" | "r = ?row" by auto
        then show "\<exists>j<length ?S. ts[i := Finished] ! j = Finished \<and>
          r = sample_row e (l_id r) (clock j) (?S ! j) \<and> \<not> number_present e (?S ! j) db0"
        proof cases
          case 1
          with new(3) obtain j where j: "j < length ?S" "ts ! j = Finished"
            "r = sample_row e (l_id r) (clock j) (?S ! j)" "\<not> number_present e (?S ! j) db0"
            by blast
          with insert(1) show ?thesis by (auto simp add: nth_list_update)
        next
          case 2
          with i insert(1) absent0 rowid show ?thesis
            by (intro exI [of _ i]) simp
        qed
      qed
      have d: "distinct (map l_number (new @ [?row]))"
        using new(2) fresh rownum by simp
      have l: "levels ?db' = levels db0 @ (new @ [?row])"
        using new(1) by simp
      have len': "length (ts[i := Finished]) = length ?S" using len by simp
      have vid': "videos ?db' = videos db0" "videos_seq ?db' = videos_seq db0"
        using vid by simp_all
      show ?thesis
        unfolding step by (rule seedingI [OF len' vid' l d n t])
    qed
  qed
qed

lemma seeding_run:
  assumes "seeding e clock db0 st"
  shows "seeding e clock db0 (fold (seed_step e clock) sched st)"
  using assms
proof (induction sched arbitrary: st)
  case Nil
  then show ?case by simp
next
  case (Cons i sched)
  obtain ts db where st: "st = (ts, db)" by (cases st)
  from Cons.prems have "seeding e clock db0 (seed_step e clock i (ts, db))"
    unfolding st by (rule seeding_step)
  then show ?case unfolding st by (simp add: Cons.IH)
qed

lemma seeding_start: "seeding e clock db (map Lookup sampleLevels, db)"
  by (simp add: seeding_def)

lemma reseeding_step:
  assumes ok: "\<forall>i<length sampleLevels. number_present e (sampleLevels ! i) db1 \<or> levels_full db1"
    and inv: "reseeding e db1 (ts, db)"
  shows "reseeding e db1 (seed_step e clock i (ts, db))"
proof -
  let ?S = sampleLevels
  from inv have len: "length ts = length ?S" and db: "db = db1"
    and tasks: "\<forall>j<length ?S. ts ! j = Lookup (?S ! j) \<or>
         (ts ! j = Insert (?S ! j) \<and> \<not> number_present e (?S ! j) db1) \<or> ts ! j = Finished"
    by (simp_all add: reseeding_def)
  consider (out) "\<not> i < length ts \<or> ts ! i = Finished"
    | (lookup) "i < length ts" "ts ! i = Lookup (?S ! i)"
    | (insert) "i < length ts" "ts ! i = Insert (?S ! i)" "\<not> number_present e (?S ! i) db1"
    using tasks len by (cases "i < length ts") auto
  then show ?thesis
  proof cases
    case out
    with inv show ?thesis by (simp add: other_step)
  next
    case lookup
    let ?t = "if number_present e (?S ! i) db then Finished else Insert (?S ! i)"
    have step: "seed_step e clock i (ts, db) = (ts[i := ?t], db)"
      using lookup by (rule lookup_step)
    show ?thesis
      unfolding step reseeding_def using len db tasks lookup(1)
      by (auto simp add: nth_list_update)
  next
    case insert
    from insert(1) len have "i < length ?S" by simp
    with ok insert(3) have "levels_full db" by (auto simp add: db)
    then have step: "seed_step e clock i (ts, db) = (ts[i := Finished], db)"
      using insert_step [OF insert(1,2)] insert_sample_full by simp
    show ?thesis
      unfolding step reseeding_def using len db tasks insert(1)
      by (auto simp add: nth_list_update)
  qed
qed

lemma reseeding_run:
  assumes "\<forall>i<length sampleLevels. number_present e (sampleLevels ! i) db1 \<or> levels_full db1"
    and "reseeding e db1 st"
  shows "reseeding e db1 (fold (seed_step e clock) sched st)"
  using assms(2)
proof (induction sched arbitrary: st)
  case Nil
  then show ?case by simp
next
  case (Cons i sched)
  obtain ts db where st: "st = (ts, db)" by (cases st)
  from Cons.prems have "reseeding e db1 (seed_step e clock i (ts, db))"
    unfolding st by (rule reseeding_step [OF assms(1)])
  then show ?case unfolding st by (simp add: Cons.IH)
qed

text \<open>
  Claim C8. The seeding is idempotent. For every store and every schedule that lets the
  three chains finish: the videos and the existing levels stay as they are and in place;
  the rows added are
  rows of sample levels (all columns as in the array) of different numbers, each for a
  number that no level had before; unless the table has run out of row ids, each of the
  three numbers is there afterwards; and running the seeding again, under any schedule,
  changes nothing.
\<close>

theorem insertSampleData_idempotent:
  assumes "list_all is_finished (fst (insertSampleData e sched clock db))"
  shows "videos (snd (insertSampleData e sched clock db)) = videos db \<and>
   videos_seq (snd (insertSampleData e sched clock db)) = videos_seq db \<and>
   (\<exists>new. levels (snd (insertSampleData e sched clock db)) = levels db @ new \<and>
      distinct (map l_number new) \<and>
      (\<forall>r\<in>set new. \<exists>i<length sampleLevels.
         r = sample_row e (l_id r) (clock i) (sampleLevels ! i) \<and>
         \<not> number_present e (sampleLevels ! i) db)) \<and>
   (\<not> levels_full (snd (insertSampleData e sched clock db)) \<longrightarrow>
      (\<forall>i<length sampleLevels.
         number_present e (sampleLevels ! i) (snd (insertSampleData e sched clock db)))) \<and>
   (\<forall>sched' clock'.
      snd (insertSampleData e sched' clock' (snd (insertSampleData e sched clock db))) =
      snd (insertSampleData e sched clock db))"
proof -
  let ?S = sampleLevels
  let ?st = "insertSampleData e sched clock db"
  have inv: "seeding e clock db ?st"
    unfolding insertSampleData_def by (rule seeding_run [OF seeding_start])
  from assms have fin: "\<forall>i<length (fst ?st). fst ?st ! i = Finished"
  proof -
    have "is_finished t \<Longrightarrow> t = Finished" for t by (cases t) simp_all
    with assms show ?thesis by (auto simp add: list_all_length)
  qed
  from inv have len: "length (fst ?st) = length ?S" by (simp add: seeding_def)
  from inv have vid: "videos (snd ?st) = videos db" "videos_seq (snd ?st) = videos_seq db"
    by (simp_all add: seeding_def)
  from inv obtain new where new: "levels (snd ?st) = levels db @ new" "distinct (map l_number new)"
    "\<forall>r\<in>set new. \<exists>i<length ?S. fst ?st ! i = Finished \<and>
        r = sample_row e (l_id r) (clock i) (?S ! i) \<and> \<not> number_present e (?S ! i) db"
    by (auto simp add: seeding_def)
  from new(3) have new': "\<forall>r\<in>set new. \<exists>i<length ?S.
        r = sample_row e (l_id r) (clock i) (?S ! i) \<and> \<not> number_present e (?S ! i) db"
    by blast
  from inv fin len have present: "\<forall>i<length ?S. number_present e (?S ! i) (snd ?st) \<or>
      levels_full (snd ?st)"
    by (auto simp add: seeding_def)
  have again: "snd (insertSampleData e sched' clock' (snd ?st)) = snd ?st" for sched' clock'
  proof -
    have "reseeding e (snd ?st) (map Lookup ?S, snd ?st)"
      by (simp add: reseeding_def)
    from reseeding_run [OF present this, of clock' sched']
    show ?thesis by (simp add: reseeding_def insertSampleData_def)
  qed
  from vid new(1,2) new' present again show ?thesis by blast
qed

theorem insertSampleData_idempotent_witness:
  "list_all is_finished (fst (insertSampleData example_engine last_first at_noon custom_store)) \<and>
   map (\<lambda>r. (l_id r, l_number r, l_title r))
      (levels (snd (insertSampleData example_engine last_first at_noon custom_store))) =
     [(1, SInt 2, SText ''Yoga''), (2, SInt 3, SText ''Mythology & Epics''),
      (3, SInt 1, SText ''Festivals & Celebrations'')] \<and>
   map (\<lambda>r. (l_id r, l_number r, l_title r))
      (levels (snd (insertSampleData example_engine in_array_order at_noon custom_store))) =
     [(1, SInt 2, SText ''Yoga''), (2, SInt 1, SText ''Festivals & Celebrations''),
      (3, SInt 3, SText ''Mythology & Epics'')] \<and>
   snd (insertSampleData example_engine in_array_order at_noon
          (snd (insertSampleData example_engine last_first at_noon custom_store))) =
     snd (insertSampleData example_engine last_first at_noon custom_store)"
proof -
  have fin: "list_all is_finished
      (fst (insertSampleData example_engine last_first at_noon custom_store))"
    by code_simp
  have rows: "map (\<lambda>r. (l_id r, l_number r, l_title r))
      (levels (snd (insertSampleData example_engine last_first at_noon custom_store))) =
     [(1, SInt 2, SText ''Yoga''), (2, SInt 3, SText ''Mythology & Epics''),
      (3, SInt 1, SText ''Festivals & Celebrations'')]"
    by code_simp
  have rows': "map (\<lambda>r. (l_id r, l_number r, l_title r))
      (levels (snd (insertSampleData example_engine in_array_order at_noon custom_store))) =
     [(1, SInt 2, SText ''Yoga''), (2, SInt 1, SText ''Festivals & Celebrations''),
      (3, SInt 3, SText ''Mythology & Epics'')]"
    by code_simp
  from insertSampleData_idempotent [OF fin] fin rows rows'
  show ?thesis by blast
qed

subsection \<open>Creating a level without a status\<close>

text \<open>
  Claim C9. On the freshly seeded store, \<^verbatim>\<open>POST /api/levels\<close> with the body
  \<^verbatim>\<open>{number: 4, title: "Dance Forms", points: 120}\<close> answers 200 with the id 4, and the
  listing then has one row with the number 4: its title is \<^verbatim>\<open>Dance Forms\<close>, its points
  are 120, and its status is NULL, not \<^verbatim>\<open>locked\<close>; the INSERT names the status column, so
  the declared default is not used. The seeded store is the one that the seeding makes
  of empty tables when its three chains run in the order of the array.
\<close>

theorem post_level_omitted_status_is_null:
  "fst (post_level e now dance_forms (snd (insertSampleData e in_array_order clock fresh_store))) =
     \<lparr>status_code = 200, payload = Created 4 ''Level created successfully''\<rparr> \<and>
   map (\<lambda>r. (l_id r, l_number r, l_title r, l_status r, l_points r))
     (filter (\<lambda>r. l_number r = SInt 4)
        (sort_key (\<lambda>r. sort_rank (l_number r))
           (levels (snd (post_level e now dance_forms
              (snd (insertSampleData e in_array_order clock fresh_store))))))) =
     [(4, SInt 4, SText ''Dance Forms'', SNull, SInt 120)] \<and>
   get_levels (snd (post_level e now dance_forms
       (snd (insertSampleData e in_array_order clock fresh_store)))) =
     \<lparr>status_code = 200, payload =
        Levels (sort_key (\<lambda>r. sort_rank (l_number r))
           (levels (snd (post_level e now dance_forms
              (snd (insertSampleData e in_array_order clock fresh_store))))))\<rparr>"
proof -
  have seeded: "snd (insertSampleData e in_array_order clock fresh_store) =
    \<lparr>levels = [sample_row e 1 (clock 0) (sampleLevels ! 0),
                sample_row e 2 (clock 1) (sampleLevels ! 1),
                sample_row e 3 (clock 2) (sampleLevels ! 2)],
     videos = None, levels_seq = 3, videos_seq = 0\<rparr>"
    by (simp add: insertSampleData_def in_array_order_def sampleLevels_def seed_step_def
        select_level_by_number_def level_number_is_def sql_eq_def insert_sample_def
        insert_level_def fresh_store_def rowid_full_def max_rowid_def new_level_row_def
        sample_row_def Let_def)
  show ?thesis
    unfolding seeded
    by (simp add: post_level_def insert_level_def dance_forms_def sampleLevels_def
        sample_row_def new_level_row_def rowid_full_def max_rowid_def sql_eq_def Let_def
        get_levels_def select_levels_def json_def less_eq_prod_def)
qed

end
